theory Spec2Isabelle
  imports Main "HOL-Library.Char_ord"
begin

section \<open>Audio streaming route: range negotiation, chunk sizing, rate limiting\<close>

text \<open>
  A shallow embedding of \<^verbatim>\<open>src/app/api/audio/stream/route.ts\<close>.

  Numbers. The TypeScript \<^verbatim>\<open>number\<close>s of this file are byte offsets, sizes, counters and
  millisecond timestamps; they are modelled as mathematical integers (\<^typ>\<open>int\<close>). This is
  exact as long as every value is a safe integer (magnitude below \<open>2^53\<close>), which holds for
  object sizes and timestamps.

  Strings. A string is a \<^typ>\<open>string\<close> (a list of 8-bit characters); file names and header
  values are read as byte strings.
\<close>

subsection \<open>Decimal digits: \<^verbatim>\<open>parseInt(s, 10)\<close> and number-to-string conversion\<close>

text \<open>The regular-expression class \<^verbatim>\<open>\d\<close> (no unicode flag): the ten ASCII digits.\<close>

definition is_digit :: "char \<Rightarrow> bool" where
  "is_digit c = (CHR ''0'' \<le> c \<and> c \<le> CHR ''9'')"

definition digit_val :: "char \<Rightarrow> int" where
  "digit_val c = int (of_char c) - 48"

text \<open>
  \<^verbatim>\<open>parseInt(s, 10)\<close> on a non-empty string of decimal digits (the only strings the capture
  groups of the range pattern hold): the digits are read left to right in base ten. For a
  digit string beyond the safe integers JavaScript rounds the value to a double; rounding is
  monotone and keeps every safe integer, so the comparisons of \<^verbatim>\<open>parseRange\<close> with a
  safe-integer file size come out as they do on the exact value, and a value that passes
  them is below the file size and therefore exact.
\<close>

definition parseInt :: "string \<Rightarrow> int" where
  "parseInt s = foldl (\<lambda>acc c. acc * 10 + digit_val c) 0 s"

definition digit_char :: "nat \<Rightarrow> char" where
  "digit_char d = char_of (48 + d)"

fun nat_digits :: "nat \<Rightarrow> string" where
  "nat_digits n = (if n < 10 then [digit_char n] else nat_digits (n div 10) @ [digit_char (n mod 10)])"

declare nat_digits.simps [simp del]

text \<open>
  What a template literal \<^verbatim>\<open>`${n}`\<close> and \<^verbatim>\<open>n.toString()\<close> produce for a safe integer
  \<open>n\<close>: the decimal digits, after a minus sign when \<open>n\<close> is negative.
\<close>

definition toString :: "int \<Rightarrow> string" where
  "toString n = (if n < 0 then CHR ''-'' # nat_digits (nat (- n)) else nat_digits (nat n))"

subsection \<open>\<^verbatim>\<open>parseRange\<close> (route.ts, lines 51 to 63)\<close>

text \<open>
  \<^verbatim>\<open>range.match(/bytes=(\d*)-(\d*)/)\<close>. The pattern has no anchors and no \<^verbatim>\<open>g\<close> flag, so the
  engine tries every start position from left to right and returns the first match.

  \<open>match_at s\<close> is one attempt at the beginning of \<open>s\<close>: the literal \<^verbatim>\<open>bytes=\<close>, then the
  greedy \<^verbatim>\<open>(\d*)\<close>, then \<^verbatim>\<open>-\<close>, then the greedy \<^verbatim>\<open>(\d*)\<close>. Backtracking into the first
  group cannot help (a shorter run of digits is followed by a digit, never by \<^verbatim>\<open>-\<close>), so the
  attempt succeeds exactly when the longest run of digits is followed by \<^verbatim>\<open>-\<close>. The result
  holds the two captures \<^verbatim>\<open>match[1]\<close> and \<^verbatim>\<open>match[2]\<close>.
\<close>

definition match_at :: "string \<Rightarrow> (string \<times> string) option" where
  "match_at s =
     (if take 6 s = ''bytes='' then
        (case dropWhile is_digit (drop 6 s) of
           [] \<Rightarrow> None
         | c # rest \<Rightarrow>
             if c = CHR ''-'' then Some (takeWhile is_digit (drop 6 s), takeWhile is_digit rest)
             else None)
      else None)"

fun regex_match :: "string \<Rightarrow> (string \<times> string) option" where
  "regex_match [] = match_at []"
| "regex_match (c # cs) =
     (case match_at (c # cs) of Some m \<Rightarrow> Some m | None \<Rightarrow> regex_match cs)"

text \<open>The object \<^verbatim>\<open>{ start, end }\<close>; \<open>endp\<close> is the field \<^verbatim>\<open>end\<close>.\<close>

record byte_range =
  start :: int
  endp :: int

text \<open>
  \<^verbatim>\<open>match[1] ? parseInt(match[1], 10) : 0\<close>: an empty capture is falsy, every other one is
  truthy (also \<^verbatim>\<open>"0"\<close>). The result \<open>None\<close> is the \<^verbatim>\<open>null\<close> of the source.
\<close>

definition parseRange :: "string \<Rightarrow> int \<Rightarrow> byte_range option" where
  "parseRange rangeHeader fileSize =
     (case regex_match rangeHeader of
        None \<Rightarrow> None
      | Some (m1, m2) \<Rightarrow>
          (let s = (if m1 \<noteq> [] then parseInt m1 else 0);
               e = (if m2 \<noteq> [] then parseInt m2 else fileSize - 1)
           in if s \<ge> fileSize \<or> e \<ge> fileSize \<or> s > e then None
              else Some \<lparr>start = s, endp = e\<rparr>))"

subsection \<open>\<^verbatim>\<open>optimizeRange\<close> (route.ts, lines 66 to 107)\<close>

definition optimizeRange :: "byte_range \<Rightarrow> int \<Rightarrow> bool \<Rightarrow> byte_range" where
  "optimizeRange requestedRange fileSize isFirstRequest =
     (if isFirstRequest \<and> start requestedRange = 0 then
        (let initialPlaybackSize =
               (if fileSize < 5 * 1024 * 1024 then min (1024 * 1024) (fileSize - 1)
                else if fileSize < 15 * 1024 * 1024 then min (2 * 1024 * 1024) (fileSize - 1)
                else min (3 * 1024 * 1024) (fileSize - 1))
         in \<lparr>start = 0, endp = initialPlaybackSize\<rparr>)
      else
        (let requestedSize = endp requestedRange - start requestedRange + 1;
             optimalChunkSize =
               (if fileSize < 5 * 1024 * 1024 then 512 * 1024
                else if fileSize < 15 * 1024 * 1024 then 1024 * 1024
                else 1536 * 1024)
         in if requestedSize < optimalChunkSize \<and> endp requestedRange < fileSize - 1 then
              \<lparr>start = start requestedRange,
               endp = min (start requestedRange + optimalChunkSize - 1) (fileSize - 1)\<rparr>
            else requestedRange))"

subsection \<open>The rate limiter (route.ts, lines 9 to 48)\<close>

text \<open>
  The module-level \<^verbatim>\<open>rateLimitMap\<close>, a \<^verbatim>\<open>Map\<close> from identifiers to
  \<^verbatim>\<open>{ count, resetTime }\<close> objects, is a partial function; the functions that mutate it take
  the table and return the new one.
\<close>

record entry =
  count :: int
  resetTime :: int

type_synonym rateLimitMap = "string \<rightharpoonup> entry"

text \<open>
  \<^verbatim>\<open>cleanupRateLimit\<close>: the loop visits every entry and deletes those with
  \<^verbatim>\<open>now > value.resetTime\<close>. Its argument \<open>now\<close> is the value its own \<^verbatim>\<open>Date.now()\<close> returned.
\<close>

definition cleanupRateLimit :: "int \<Rightarrow> rateLimitMap \<Rightarrow> rateLimitMap" where
  "cleanupRateLimit now m =
     (\<lambda>key. case m key of
               None \<Rightarrow> None
             | Some v \<Rightarrow> if now > resetTime v then None else Some v)"

text \<open>
  \<^verbatim>\<open>checkRateLimit\<close> reads the clock twice: once inside \<^verbatim>\<open>cleanupRateLimit()\<close> (line 14,
  the argument \<open>cleanupNow\<close>) and once for itself (line 26, the argument \<open>now\<close>).
  \<^verbatim>\<open>current.count++\<close> mutates the object stored in the map, which is an update of the table.
\<close>

definition checkRateLimit :: "int \<Rightarrow> int \<Rightarrow> string \<Rightarrow> rateLimitMap \<Rightarrow> bool \<times> rateLimitMap" where
  "checkRateLimit cleanupNow now identifier m =
     (let m1 = cleanupRateLimit cleanupNow m;
          windowMs = 60 * 1000;
          maxRequests = 30
      in case m1 identifier of
           None \<Rightarrow> (True, m1(identifier \<mapsto> \<lparr>count = 1, resetTime = now + windowMs\<rparr>))
         | Some current \<Rightarrow>
             if now > resetTime current then
               (True, m1(identifier \<mapsto> \<lparr>count = 1, resetTime = now + windowMs\<rparr>))
             else if count current \<ge> maxRequests then (False, m1)
             else (True, m1(identifier \<mapsto> current\<lparr>count := count current + 1\<rparr>)))"

text \<open>
  A sequence of calls, each with its two clock readings and its identifier, run from a table:
  the results in order, and the table after the last call.
\<close>

fun checkRateLimit_calls :: "(int \<times> int \<times> string) list \<Rightarrow> rateLimitMap \<Rightarrow> bool list \<times> rateLimitMap" where
  "checkRateLimit_calls [] m = ([], m)"
| "checkRateLimit_calls ((cleanupNow, now, identifier) # calls) m =
     (let (r, m') = checkRateLimit cleanupNow now identifier m;
          (rs, m'') = checkRateLimit_calls calls m'
      in (r # rs, m''))"

text \<open>
  The results of the calls made for one identifier, in order, among a sequence of calls
  that may also hold calls for other identifiers.
\<close>

definition admissions :: "string \<Rightarrow> (int \<times> int \<times> string) list \<Rightarrow> rateLimitMap \<Rightarrow> bool list" where
  "admissions ident calls m =
     map snd (filter (\<lambda>(call, r). snd (snd call) = ident)
                     (zip calls (fst (checkRateLimit_calls calls m))))"

subsection \<open>The \<^verbatim>\<open>GET\<close> handler (route.ts, lines 110 to 253)\<close>

text \<open>
  The storage service and the helper \<^verbatim>\<open>getURL\<close> are imported from modules outside this
  file; they are parameters of the handler. Both storage methods return a
  \<^verbatim>\<open>GetObjectCommandOutput\<close> or \<^verbatim>\<open>null\<close> (\<open>None\<close>); the fields the handler reads are
  optional. A \<^verbatim>\<open>Body\<close> is a stream object, modelled by the bytes it yields.

  The handler awaits both storage calls inside its \<^verbatim>\<open>try\<close> block, so a call that rejects
  instead of returning is an outcome of its own (\<open>Thrown\<close>), answered by the \<^verbatim>\<open>catch\<close>
  branch.
\<close>

datatype 'a outcome = Returned 'a | Thrown

record GetObjectCommandOutput =
  ContentLength :: "int option"
  ContentType :: "string option"
  Body :: "string option"

record env =
  getfileMediaInfo :: "string \<Rightarrow> GetObjectCommandOutput option outcome"
  getFileRange :: "string \<Rightarrow> int \<Rightarrow> int \<Rightarrow> GetObjectCommandOutput option outcome"
  getURL :: "string option"

text \<open>
  What the handler reads of the request: the query parameters \<^verbatim>\<open>file\<close>, \<^verbatim>\<open>token\<close> and
  \<^verbatim>\<open>expires\<close> (\<^verbatim>\<open>searchParams.get\<close> gives \<^verbatim>\<open>null\<close>, here \<open>None\<close>, for a missing one) and the
  \<^verbatim>\<open>range\<close> header.
\<close>

record request =
  param_file :: "string option"
  param_token :: "string option"
  param_expires :: "string option"
  header_range :: "string option"

datatype response_body =
    JsonBody "(string \<times> string) list"
  | TextBody string
  | StreamBody string

text \<open>
  A response: the status, the headers passed to the constructor in insertion order, and the
  body.
\<close>

record response =
  status :: nat
  headers :: "(string \<times> string) list"
  body :: response_body

text \<open>
  Lines 137 to 172: the served range and the two flags, or \<open>None\<close> where the handler answers
  416. A \<^verbatim>\<open>range\<close> header that is absent or the empty string is falsy.
\<close>

record negotiated =
  served :: byte_range
  isPartialContent :: bool
  isFirstRequest :: bool

definition negotiate :: "string option \<Rightarrow> int \<Rightarrow> negotiated option" where
  "negotiate rangeHeader fileSize =
     (case rangeHeader of
        Some r \<Rightarrow>
          if r \<noteq> [] then
            (case parseRange r fileSize of
               None \<Rightarrow> None
             | Some parsedRange \<Rightarrow>
                 (let isFirst = (start parsedRange = 0)
                  in Some \<lparr>served = optimizeRange parsedRange fileSize isFirst,
                           isPartialContent = True, isFirstRequest = isFirst\<rparr>))
          else
            (let optimizedRange = optimizeRange \<lparr>start = 0, endp = fileSize - 1\<rparr> fileSize True
             in Some \<lparr>served = optimizedRange,
                      isPartialContent = (endp optimizedRange < fileSize - 1),
                      isFirstRequest = True\<rparr>)
      | None \<Rightarrow>
          (let optimizedRange = optimizeRange \<lparr>start = 0, endp = fileSize - 1\<rparr> fileSize True
           in Some \<lparr>served = optimizedRange,
                    isPartialContent = (endp optimizedRange < fileSize - 1),
                    isFirstRequest = True\<rparr>))"

text \<open>
  Lines 188 to 200: the content type. \<^verbatim>\<open>fileName.split('.').pop()\<close> is the part after the
  last dot (the whole name when it has none); \<^verbatim>\<open>toLowerCase\<close> is modelled on ASCII letters.
  \<^verbatim>\<open>mimeTypes[ext]\<close> is a property read on an object literal: besides the five own keys it
  finds, of the all-lowercase names, the inherited \<^verbatim>\<open>constructor\<close> and \<^verbatim>\<open>__proto__\<close>, whose
  values are truthy and reach the header as their string conversions.
\<close>

definition toLowerCase :: "string \<Rightarrow> string" where
  "toLowerCase s =
     map (\<lambda>c. if CHR ''A'' \<le> c \<and> c \<le> CHR ''Z'' then char_of (of_char c + (32::nat)) else c) s"

definition mimeTypes :: "(string \<times> string) list" where
  "mimeTypes =
     [(''mp3'', ''audio/mpeg''),
      (''wav'', ''audio/wav''),
      (''ogg'', ''audio/ogg''),
      (''flac'', ''audio/flac''),
      (''m4a'', ''audio/mp4''),
      (''constructor'', ''function Object() { [native code] }''),
      (''__proto__'', ''[object Object]'')]"

definition contentTypeFor :: "string \<Rightarrow> string option \<Rightarrow> string" where
  "contentTypeFor fileName storedType =
     (let contentType = (case storedType of
                           None \<Rightarrow> ''audio/mpeg''
                         | Some t \<Rightarrow> if t \<noteq> [] then t else ''audio/mpeg'');
          ext = toLowerCase (rev (takeWhile (\<lambda>c. c \<noteq> CHR ''.'') (rev fileName)))
      in if ext \<noteq> [] then
           (case map_of mimeTypes ext of Some t \<Rightarrow> t | None \<Rightarrow> contentType)
         else contentType)"

text \<open>Lines 202 to 213: the cache policy.\<close>

definition cacheControl :: "bool \<Rightarrow> int \<Rightarrow> bool \<Rightarrow> string" where
  "cacheControl isFirst fileSize isPartial =
     (if isFirst \<and> fileSize > 10 * 1024 * 1024 then
        ''public, max-age=7200, stale-while-revalidate=3600''
      else if isPartial then ''public, max-age=31536000, immutable''
      else ''public, max-age=86400, stale-while-revalidate=3600'')"

text \<open>
  \<^verbatim>\<open>encodeURIComponent\<close> on a byte string: the unreserved characters stay, every other byte
  becomes \<^verbatim>\<open>%XX\<close> with upper-case hexadecimal digits.
\<close>

definition uri_unreserved :: "char \<Rightarrow> bool" where
  "uri_unreserved c =
     ((CHR ''A'' \<le> c \<and> c \<le> CHR ''Z'') \<or> (CHR ''a'' \<le> c \<and> c \<le> CHR ''z'') \<or> is_digit c
      \<or> c \<in> set ''-_.!~*()'' \<or> c = CHR 0x27)"

definition hex_digit :: "nat \<Rightarrow> char" where
  "hex_digit d = ''0123456789ABCDEF'' ! (d mod 16)"

definition encodeURIComponent :: "string \<Rightarrow> string" where
  "encodeURIComponent s =
     concat (map (\<lambda>c. if uri_unreserved c then [c]
                       else [CHR ''%'', hex_digit (of_char c div 16), hex_digit (of_char c mod 16)]) s)"

text \<open>Lines 184 to 238: the headers of a 200 or 206 response.\<close>

definition buildHeaders :: "env \<Rightarrow> string \<Rightarrow> int \<Rightarrow> negotiated \<Rightarrow> string option \<Rightarrow> (string \<times> string) list" where
  "buildHeaders e fileName fileSize n storedType =
     (let s = start (served n);
          en = endp (served n);
          contentLength = en - s + 1;
          contentRange = ''bytes '' @ toString s @ ''-'' @ toString en @ ''/'' @ toString fileSize;
          base =
            [(''Content-Type'', contentTypeFor fileName storedType),
             (''Content-Length'', toString contentLength),
             (''Accept-Ranges'', ''bytes''),
             (''Cache-Control'', cacheControl (isFirstRequest n) fileSize (isPartialContent n)),
             (''Access-Control-Allow-Origin'',
                (case getURL e of None \<Rightarrow> ''*'' | Some u \<Rightarrow> if u \<noteq> [] then u else ''*'')),
             (''X-Content-Type-Options'', ''nosniff''),
             (''X-Frame-Options'', ''DENY''),
             (''Referrer-Policy'', ''strict-origin-when-cross-origin''),
             (''Content-Disposition'', ''inline'')];
          hint =
            (if isPartialContent n \<and> en < fileSize - 1 then
               (let nextChunkStart = en + 1;
                    nextChunkEnd = min (nextChunkStart + contentLength - 1) (fileSize - 1)
                in [(''Link'', ''</api/audio/stream?file='' @ encodeURIComponent fileName
                               @ ''>; rel=prefetch; as=audio''),
                    (''X-Next-Range'',
                       ''bytes='' @ toString nextChunkStart @ ''-'' @ toString nextChunkEnd)])
             else []);
          partial = (if isPartialContent n then [(''Content-Range'', contentRange)] else [])
      in base @ hint @ partial)"

text \<open>
  The body of \<^verbatim>\<open>GET\<close>. \<^verbatim>\<open>!fileName\<close> holds for a missing and for an empty parameter;
  \<^verbatim>\<open>!fileMetadata?.ContentLength\<close> holds for \<^verbatim>\<open>null\<close>, a missing length and the length 0.
  The parameters \<^verbatim>\<open>token\<close> and \<^verbatim>\<open>expires\<close> are read and never used. The \<^verbatim>\<open>catch\<close>
  branch answers 500 with \<^verbatim>\<open>Internal server error\<close>; of the operations in the \<^verbatim>\<open>try\<close> block
  the two storage calls are the ones that can reject.
\<close>

definition handle :: "env \<Rightarrow> request \<Rightarrow> response" where
  "handle e req =
     (let missingFile = \<lparr>status = 400, headers = [],
                         body = JsonBody [(''error'', ''Missing file parameter'')]\<rparr>;
          noSize = \<lparr>status = 500, headers = [],
                    body = JsonBody [(''error'', ''Unable to determine file size'')]\<rparr>;
          notFound = \<lparr>status = 404, headers = [],
                      body = JsonBody [(''error'', ''Audio file not found'')]\<rparr>;
          internalError = \<lparr>status = 500, headers = [],
                           body = JsonBody [(''error'', ''Internal server error'')]\<rparr>
      in case param_file req of
           None \<Rightarrow> missingFile
         | Some fileName \<Rightarrow>
             if fileName = [] then missingFile
             else
               (case getfileMediaInfo e fileName of
                  Thrown \<Rightarrow> internalError
                | Returned None \<Rightarrow> noSize
                | Returned (Some fileMetadata) \<Rightarrow>
                    (case ContentLength fileMetadata of
                       None \<Rightarrow> noSize
                     | Some fileSize \<Rightarrow>
                         if fileSize = 0 then noSize
                         else
                           (case negotiate (header_range req) fileSize of
                              None \<Rightarrow> \<lparr>status = 416, headers = [], body = TextBody ''Invalid range''\<rparr>
                            | Some n \<Rightarrow>
                                (case getFileRange e fileName (start (served n)) (endp (served n)) of
                                   Thrown \<Rightarrow> internalError
                                 | Returned None \<Rightarrow> notFound
                                 | Returned (Some resp) \<Rightarrow>
                                     (case Body resp of
                                        None \<Rightarrow> notFound
                                      | Some bytes \<Rightarrow>
                                          \<lparr>status = (if isPartialContent n then 206 else 200),
                                           headers = buildHeaders e fileName fileSize n (ContentType resp),
                                           body = StreamBody bytes\<rparr>))))))"

text \<open>
  \<^verbatim>\<open>GET\<close> as a function of the module state: the handler runs in the module that owns
  \<^verbatim>\<open>rateLimitMap\<close>, so it takes the table and returns it with the response. Its body neither
  calls \<^verbatim>\<open>checkRateLimit\<close> nor reads or writes the table.
\<close>

definition GET :: "env \<Rightarrow> request \<Rightarrow> rateLimitMap \<Rightarrow> response \<times> rateLimitMap" where
  "GET e req m = (handle e req, m)"

subsection \<open>The grammar of the specification, and a storage stub\<close>

text \<open>
  The specification's grammar for a Range header, in its words: the single-range form
  \<^verbatim>\<open>bytes=<start>-<end>\<close> where either bound may be omitted. The whole header has that
  form: the prefix \<^verbatim>\<open>bytes=\<close>, digits, a dash, digits, and nothing else.
\<close>

definition spec_single_range :: "string \<Rightarrow> bool" where
  "spec_single_range h =
     (take 6 h = ''bytes='' \<and>
      (case dropWhile is_digit (drop 6 h) of
         [] \<Rightarrow> False
       | c # rest \<Rightarrow> c = CHR ''-'' \<and> list_all is_digit rest))"

text \<open>
  A storage holding one object, \<^verbatim>\<open>lion.mp3\<close>, of the given size; a range read returns a
  stream (its bytes stand for the requested span). Used for the scenarios.
\<close>

definition storage_with :: "int \<Rightarrow> env" where
  "storage_with objectSize =
     \<lparr>getfileMediaInfo =
        (\<lambda>name. if name = ''lion.mp3''
                 then Returned (Some \<lparr>ContentLength = Some objectSize,
                                      ContentType = Some ''audio/mpeg'', Body = Some ''...''\<rparr>)
                 else Returned None),
      getFileRange =
        (\<lambda>name s e. if name = ''lion.mp3''
                     then Returned (Some \<lparr>ContentLength = Some (e - s + 1),
                                          ContentType = Some ''audio/mpeg'', Body = Some ''...''\<rparr>)
                     else Returned None),
      getURL = None\<rparr>"

definition request_for :: "string option \<Rightarrow> request" where
  "request_for rangeHeader =
     \<lparr>param_file = Some ''lion.mp3'', param_token = None, param_expires = None,
      header_range = rangeHeader\<rparr>"

section \<open>Auxiliary facts\<close>

subsection \<open>Decimal digits\<close>

lemma nat_digits_small: "n < 10 \<Longrightarrow> nat_digits n = [digit_char n]"
  by (subst nat_digits.simps) simp

lemma nat_digits_large:
  "\<not> n < 10 \<Longrightarrow> nat_digits n = nat_digits (n div 10) @ [digit_char (n mod 10)]"
  by (subst nat_digits.simps) simp

lemma is_digit_digit_char: "d < 10 \<Longrightarrow> is_digit (digit_char d)"
  by (simp add: is_digit_def digit_char_def less_eq_char_def)

lemma digit_val_digit_char: "d < 10 \<Longrightarrow> digit_val (digit_char d) = int d"
  by (simp add: digit_val_def digit_char_def)

lemma digit_val_nonneg: "is_digit c \<Longrightarrow> 0 \<le> digit_val c"
  by (simp add: is_digit_def digit_val_def less_eq_char_def)

lemma parseInt_snoc: "parseInt (xs @ [c]) = parseInt xs * 10 + digit_val c"
  by (simp add: parseInt_def)

lemma nat_digits_all_digits: "list_all is_digit (nat_digits n)"
proof (induction n rule: nat_digits.induct)
  case (1 n)
  show ?case
  proof (cases "n < 10")
    case True
    then show ?thesis by (simp add: nat_digits_small is_digit_digit_char)
  next
    case False
    have "nat_digits n = nat_digits (n div 10) @ [digit_char (n mod 10)]"
      using False by (rule nat_digits_large)
    moreover have "list_all is_digit (nat_digits (n div 10))" using 1 False by simp
    ultimately show ?thesis by (simp add: is_digit_digit_char)
  qed
qed

lemma nat_digits_nonempty: "nat_digits n \<noteq> []"
  by (cases "n < 10") (simp_all add: nat_digits_small nat_digits_large)

lemma parseInt_nat_digits: "parseInt (nat_digits n) = int n"
proof (induction n rule: nat_digits.induct)
  case (1 n)
  show ?case
  proof (cases "n < 10")
    case True
    then show ?thesis by (simp add: nat_digits_small parseInt_def digit_val_digit_char)
  next
    case False
    have eq: "nat_digits n = nat_digits (n div 10) @ [digit_char (n mod 10)]"
      using False by (rule nat_digits_large)
    have ih: "parseInt (nat_digits (n div 10)) = int (n div 10)" using 1 False by simp
    have "parseInt (nat_digits n) = int (n div 10) * 10 + int (n mod 10)"
      by (simp only: eq parseInt_snoc ih) (simp add: digit_val_digit_char)
    then show ?thesis by (simp add: zdiv_int zmod_int)
  qed
qed

lemma parseInt_nonneg: "list_all is_digit ds \<Longrightarrow> 0 \<le> parseInt ds"
proof (induction ds rule: rev_induct)
  case Nil
  show ?case by (simp add: parseInt_def)
next
  case (snoc c ds)
  then show ?case by (simp add: parseInt_snoc digit_val_nonneg)
qed

lemma toString_nonneg: "0 \<le> n \<Longrightarrow> toString n = nat_digits (nat n)"
  by (simp add: toString_def)

lemma parseInt_toString: "0 \<le> n \<Longrightarrow> parseInt (toString n) = n"
  by (simp add: toString_nonneg parseInt_nat_digits)

lemma toString_all_digits: "0 \<le> n \<Longrightarrow> list_all is_digit (toString n)"
  by (simp add: toString_nonneg nat_digits_all_digits)

lemma toString_nonempty: "toString n \<noteq> []"
  by (simp add: toString_def nat_digits_nonempty)

subsection \<open>The range pattern\<close>

lemma not_digit_dash: "\<not> is_digit CHR ''-''"
  by (simp add: is_digit_def less_eq_char_def)

lemma takeWhile_digits_dash:
  "list_all is_digit d \<Longrightarrow> takeWhile is_digit (d @ CHR ''-'' # rest) = d"
  by (induction d) (simp_all add: not_digit_dash)

lemma dropWhile_digits_dash:
  "list_all is_digit d \<Longrightarrow> dropWhile is_digit (d @ CHR ''-'' # rest) = CHR ''-'' # rest"
  by (induction d) (simp_all add: not_digit_dash)

lemma match_at_occurrence:
  "list_all is_digit d \<Longrightarrow>
   match_at (''bytes='' @ d @ CHR ''-'' # rest) = Some (d, takeWhile is_digit rest)"
  by (simp add: match_at_def takeWhile_digits_dash dropWhile_digits_dash)

lemma match_at_SomeD:
  assumes "match_at s = Some (m1, m2)"
  shows "\<exists>rest. s = ''bytes='' @ m1 @ CHR ''-'' # rest \<and> list_all is_digit m1
               \<and> m2 = takeWhile is_digit rest"
proof -
  from assms have pre: "take 6 s = ''bytes=''"
    by (simp add: match_at_def split: if_splits)
  from assms pre obtain rest where
    dw: "dropWhile is_digit (drop 6 s) = CHR ''-'' # rest"
    and m1: "m1 = takeWhile is_digit (drop 6 s)" and m2: "m2 = takeWhile is_digit rest"
    by (auto simp add: match_at_def split: list.splits if_splits)
  have "s = take 6 s @ drop 6 s" by simp
  also have "drop 6 s = takeWhile is_digit (drop 6 s) @ dropWhile is_digit (drop 6 s)"
    by simp
  finally have "s = ''bytes='' @ m1 @ CHR ''-'' # rest"
    using pre dw m1 by simp
  moreover have "list_all is_digit m1"
    unfolding m1 by (simp add: list_all_iff) (meson set_takeWhileD)
  ultimately show ?thesis using m2 by blast
qed

lemma regex_match_SomeD:
  "regex_match h = Some (m1, m2) \<Longrightarrow>
   \<exists>pre rest. h = pre @ ''bytes='' @ m1 @ CHR ''-'' # rest \<and> list_all is_digit m1
             \<and> m2 = takeWhile is_digit rest"
proof (induction h)
  case Nil
  then show ?case by (simp add: match_at_def)
next
  case (Cons c cs)
  show ?case
  proof (cases "match_at (c # cs)")
    case None
    with Cons.prems have "regex_match cs = Some (m1, m2)" by simp
    from Cons.IH [OF this] obtain pre rest where
      "cs = pre @ ''bytes='' @ m1 @ CHR ''-'' # rest" "list_all is_digit m1"
      "m2 = takeWhile is_digit rest" by blast
    then have "c # cs = (c # pre) @ ''bytes='' @ m1 @ CHR ''-'' # rest" by simp
    with \<open>list_all is_digit m1\<close> \<open>m2 = takeWhile is_digit rest\<close> show ?thesis by blast
  next
    case (Some m)
    with Cons.prems have "match_at (c # cs) = Some (m1, m2)" by simp
    from match_at_SomeD [OF this] obtain rest where
      "c # cs = [] @ ''bytes='' @ m1 @ CHR ''-'' # rest" "list_all is_digit m1"
      "m2 = takeWhile is_digit rest" by auto
    then show ?thesis by blast
  qed
qed

lemma regex_match_occurrence:
  "list_all is_digit d \<Longrightarrow> regex_match (pre @ ''bytes='' @ d @ CHR ''-'' # rest) \<noteq> None"
proof (induction pre)
  case Nil
  have "match_at (''bytes='' @ d @ CHR ''-'' # rest) = Some (d, takeWhile is_digit rest)"
    using Nil by (rule match_at_occurrence)
  then show ?case by simp
next
  case (Cons c pre)
  then show ?case by (simp split: option.split)
qed

lemma regex_match_None_iff:
  "regex_match h = None \<longleftrightarrow>
   \<not> (\<exists>pre d rest. h = pre @ ''bytes='' @ d @ CHR ''-'' # rest \<and> list_all is_digit d)"
proof
  assume n: "regex_match h = None"
  show "\<not> (\<exists>pre d rest. h = pre @ ''bytes='' @ d @ CHR ''-'' # rest \<and> list_all is_digit d)"
  proof
    assume "\<exists>pre d rest. h = pre @ ''bytes='' @ d @ CHR ''-'' # rest \<and> list_all is_digit d"
    then obtain pre d rest where "h = pre @ ''bytes='' @ d @ CHR ''-'' # rest" "list_all is_digit d"
      by blast
    then have "regex_match h \<noteq> None" using regex_match_occurrence by simp
    with n show False by simp
  qed
next
  assume a: "\<not> (\<exists>pre d rest. h = pre @ ''bytes='' @ d @ CHR ''-'' # rest \<and> list_all is_digit d)"
  show "regex_match h = None"
  proof (cases "regex_match h")
    case None
    then show ?thesis .
  next
    case (Some m)
    obtain m1 m2 where "m = (m1, m2)" by (cases m)
    with Some regex_match_SomeD [of h m1 m2] a show ?thesis by blast
  qed
qed

lemma regex_match_exact:
  "list_all is_digit d \<Longrightarrow>
   regex_match (''bytes='' @ d @ CHR ''-'' # rest) = Some (d, takeWhile is_digit rest)"
  using match_at_occurrence [of d rest] by simp

lemma regex_match_captures_digits:
  assumes "regex_match h = Some (m1, m2)"
  shows "list_all is_digit m1 \<and> list_all is_digit m2"
proof -
  from regex_match_SomeD [OF assms] obtain pre rest where
    "list_all is_digit m1" "m2 = takeWhile is_digit rest" by blast
  moreover have "list_all is_digit (takeWhile is_digit rest)"
    by (simp add: list_all_iff) (meson set_takeWhileD)
  ultimately show ?thesis by simp
qed

lemma parseRange_SomeD:
  assumes "parseRange h fileSize = Some p"
  shows "0 \<le> start p \<and> start p \<le> endp p \<and> endp p < fileSize"
proof -
  from assms obtain m1 m2 where m: "regex_match h = Some (m1, m2)"
    by (auto simp add: parseRange_def split: option.splits)
  have d: "list_all is_digit m1" using regex_match_captures_digits [OF m] by simp
  have s0: "0 \<le> (if m1 \<noteq> [] then parseInt m1 else 0)"
    using d by (simp add: parseInt_nonneg)
  from assms m have
    "p = \<lparr>start = (if m1 \<noteq> [] then parseInt m1 else 0),
          endp = (if m2 \<noteq> [] then parseInt m2 else fileSize - 1)\<rparr>"
    and "\<not> ((if m1 \<noteq> [] then parseInt m1 else 0) \<ge> fileSize
          \<or> (if m2 \<noteq> [] then parseInt m2 else fileSize - 1) \<ge> fileSize
          \<or> (if m1 \<noteq> [] then parseInt m1 else 0) > (if m2 \<noteq> [] then parseInt m2 else fileSize - 1))"
    by (auto simp add: parseRange_def Let_def split: if_splits)
  with s0 show ?thesis by auto
qed

lemma takeWhile_all: "list_all P xs \<Longrightarrow> takeWhile P xs = xs"
  by (induction xs) simp_all

lemma parseRange_exact_header:
  assumes "list_all is_digit d1" and "list_all is_digit d2"
  shows "parseRange (''bytes='' @ d1 @ ''-'' @ d2) fileSize =
           (let s = (if d1 \<noteq> [] then parseInt d1 else 0);
                e = (if d2 \<noteq> [] then parseInt d2 else fileSize - 1)
            in if s \<ge> fileSize \<or> e \<ge> fileSize \<or> s > e then None
               else Some \<lparr>start = s, endp = e\<rparr>)"
proof -
  have "regex_match (''bytes='' @ d1 @ CHR ''-'' # d2) = Some (d1, takeWhile is_digit d2)"
    using assms(1) by (rule regex_match_exact)
  then have "regex_match (''bytes='' @ d1 @ ''-'' @ d2) = Some (d1, d2)"
    using assms(2) by (simp add: takeWhile_all)
  then show ?thesis by (simp add: parseRange_def)
qed

lemma parseRange_toString:
  assumes "0 \<le> s" and "s \<le> e" and "e < fileSize"
  shows "parseRange (''bytes='' @ toString s @ ''-'' @ toString e) fileSize
           = Some \<lparr>start = s, endp = e\<rparr>"
proof -
  have e0: "0 \<le> e" using assms by simp
  have "parseRange (''bytes='' @ toString s @ ''-'' @ toString e) fileSize =
           (let s' = (if toString s \<noteq> [] then parseInt (toString s) else 0);
                e' = (if toString e \<noteq> [] then parseInt (toString e) else fileSize - 1)
            in if s' \<ge> fileSize \<or> e' \<ge> fileSize \<or> s' > e' then None
               else Some \<lparr>start = s', endp = e'\<rparr>)"
    by (rule parseRange_exact_header) (simp_all add: toString_all_digits assms(1) e0)
  then show ?thesis
    using assms e0 by (simp add: toString_nonempty parseInt_toString)
qed

subsection \<open>The rate limiter\<close>

lemma cleanup_keeps:
  "m key = Some v \<Longrightarrow> cleanupNow \<le> resetTime v \<Longrightarrow> cleanupRateLimit cleanupNow m key = Some v"
  by (simp add: cleanupRateLimit_def)

lemma cleanup_SomeD:
  "cleanupRateLimit cleanupNow m key = Some v \<Longrightarrow> m key = Some v \<and> cleanupNow \<le> resetTime v"
  by (simp add: cleanupRateLimit_def split: option.splits if_splits)

lemma cleanup_None: "m key = None \<Longrightarrow> cleanupRateLimit cleanupNow m key = None"
  by (simp add: cleanupRateLimit_def)

lemma check_fresh:
  assumes "m ident = None"
  shows "fst (checkRateLimit c t ident m)
       \<and> snd (checkRateLimit c t ident m) ident = Some \<lparr>count = 1, resetTime = t + 60000\<rparr>"
  using assms by (simp add: checkRateLimit_def cleanup_None)

lemma check_expired:
  assumes "m ident = Some v" and "resetTime v < t"
  shows "fst (checkRateLimit c t ident m)
       \<and> snd (checkRateLimit c t ident m) ident = Some \<lparr>count = 1, resetTime = t + 60000\<rparr>"
proof (cases "cleanupRateLimit c m ident")
  case None
  then show ?thesis by (simp add: checkRateLimit_def)
next
  case (Some w)
  then have "m ident = Some w" by (blast dest: cleanup_SomeD)
  then have "w = v" using assms(1) by simp
  with Some assms(2) show ?thesis by (simp add: checkRateLimit_def)
qed

lemma check_in_window:
  assumes "m ident = Some \<lparr>count = k, resetTime = R\<rparr>" and "c \<le> R" and "t \<le> R"
  shows "fst (checkRateLimit c t ident m) = (k < 30)
       \<and> snd (checkRateLimit c t ident m) ident
           = Some \<lparr>count = (if k < 30 then k + 1 else k), resetTime = R\<rparr>"
proof -
  have "cleanupRateLimit c m ident = Some \<lparr>count = k, resetTime = R\<rparr>"
    using assms(1,2) by (simp add: cleanup_keeps)
  then show ?thesis using assms(3) by (simp add: checkRateLimit_def)
qed

lemma check_other:
  assumes "m ident = Some v" and "c \<le> resetTime v" and "i \<noteq> ident"
  shows "snd (checkRateLimit c t i m) ident = Some v"
proof -
  have "cleanupRateLimit c m ident = Some v" using assms(1,2) by (simp add: cleanup_keeps)
  then show ?thesis using assms(3)
    by (simp add: checkRateLimit_def Let_def split: option.split)
qed

lemma admissions_Cons:
  "admissions ident ((c, t, i) # calls) m =
     (if i = ident then [fst (checkRateLimit c t i m)] else [])
     @ admissions ident calls (snd (checkRateLimit c t i m))"
  by (simp add: admissions_def split: prod.split)

lemma calls_Cons_table:
  "snd (checkRateLimit_calls ((c, t, i) # calls) m)
     = snd (checkRateLimit_calls calls (snd (checkRateLimit c t i m)))"
  by (simp split: prod.split)

lemma map_upt_Suc_shift: "map f [0..<Suc n] = f 0 # map (\<lambda>j. f (Suc j)) [0..<n]"
  by (simp only: map_upt_Suc)

lemma window_invariant:
  assumes "m ident = Some \<lparr>count = k, resetTime = R\<rparr>"
    and "\<forall>(c, t, i) \<in> set calls. c \<le> R \<and> t \<le> R"
  shows "admissions ident calls m
           = map (\<lambda>j. k + int j < 30) [0..<length (filter (\<lambda>(c, t, i). i = ident) calls)]
       \<and> snd (checkRateLimit_calls calls m) ident
           = Some \<lparr>count = (if k < 30
                             then min 30 (k + int (length (filter (\<lambda>(c, t, i). i = ident) calls)))
                             else k),
                    resetTime = R\<rparr>"
  using assms
proof (induction calls arbitrary: m k)
  case Nil
  then show ?case by (simp add: admissions_def)
next
  case (Cons call calls)
  obtain c t i where call: "call = (c, t, i)" by (cases call)
  from Cons.prems(2) call have ct: "c \<le> R" "t \<le> R"
    and rest: "\<forall>(c, t, i) \<in> set calls. c \<le> R \<and> t \<le> R" by auto
  let ?m = "snd (checkRateLimit c t i m)"
  show ?case
  proof (cases "i = ident")
    case True
    let ?k = "if k < 30 then k + 1 else k"
    have step: "fst (checkRateLimit c t ident m) = (k < 30)"
      "snd (checkRateLimit c t ident m) ident = Some \<lparr>count = ?k, resetTime = R\<rparr>"
      using check_in_window [of m ident k R c t] Cons.prems(1) ct by simp_all
    note ih = Cons.IH [of "snd (checkRateLimit c t ident m)" ?k, OF step(2) rest]
    have n: "length (filter (\<lambda>(c, t, i). i = ident) (call # calls))
               = Suc (length (filter (\<lambda>(c, t, i). i = ident) calls))"
      using call True by simp
    have adm: "admissions ident (call # calls) m
                 = (k < 30) # admissions ident calls (snd (checkRateLimit c t ident m))"
      using True step(1) by (simp add: call admissions_Cons)
    have tbl: "snd (checkRateLimit_calls (call # calls) m)
                 = snd (checkRateLimit_calls calls (snd (checkRateLimit c t ident m)))"
      using True by (simp only: call calls_Cons_table)
    have shift: "map (\<lambda>j. ?k + int j < 30) [0..<n'] = map (\<lambda>j. k + int (Suc j) < 30) [0..<n']" for n'
      by auto
    show ?thesis
      unfolding n adm tbl map_upt_Suc_shift
      using ih shift by (auto simp add: min_def)
  next
    case False
    have keep: "?m ident = Some \<lparr>count = k, resetTime = R\<rparr>"
      using check_other [of m ident "\<lparr>count = k, resetTime = R\<rparr>" c i t] Cons.prems(1) False ct
      by simp
    note ih = Cons.IH [of ?m k, OF keep rest]
    have n: "length (filter (\<lambda>(c, t, i). i = ident) (call # calls))
               = length (filter (\<lambda>(c, t, i). i = ident) calls)"
      using call False by simp
    have adm: "admissions ident (call # calls) m = admissions ident calls ?m"
      using False by (simp add: call admissions_Cons)
    have tbl: "snd (checkRateLimit_calls (call # calls) m) = snd (checkRateLimit_calls calls ?m)"
      by (simp only: call calls_Cons_table)
    show ?thesis unfolding n adm tbl using ih by simp
  qed
qed

lemma check_table:
  "snd (checkRateLimit c t ident m) key =
     (if key = ident then
        (case cleanupRateLimit c m ident of
           None \<Rightarrow> Some \<lparr>count = 1, resetTime = t + 60000\<rparr>
         | Some cur \<Rightarrow>
             if t > resetTime cur then Some \<lparr>count = 1, resetTime = t + 60000\<rparr>
             else if count cur \<ge> 30 then Some cur
             else Some (cur\<lparr>count := count cur + 1\<rparr>))
      else cleanupRateLimit c m key)"
  by (simp add: checkRateLimit_def Let_def split: option.split)

subsection \<open>The handler\<close>

lemma handle_with_headers:
  assumes "headers (handle e req) \<noteq> []"
  shows "\<exists>fileName fileMetadata fileSize n resp bytes.
           param_file req = Some fileName \<and> fileName \<noteq> []
         \<and> getfileMediaInfo e fileName = Returned (Some fileMetadata)
         \<and> ContentLength fileMetadata = Some fileSize \<and> fileSize \<noteq> 0
         \<and> negotiate (header_range req) fileSize = Some n
         \<and> getFileRange e fileName (start (served n)) (endp (served n)) = Returned (Some resp)
         \<and> Body resp = Some bytes
         \<and> handle e req =
              \<lparr>status = (if isPartialContent n then 206 else 200),
               headers = buildHeaders e fileName fileSize n (ContentType resp),
               body = StreamBody bytes\<rparr>"
proof -
  obtain fileName where 1: "param_file req = Some fileName" "fileName \<noteq> []"
    using assms by (cases "param_file req") (auto simp add: handle_def Let_def split: if_splits)
  obtain fileMetadata where 2: "getfileMediaInfo e fileName = Returned (Some fileMetadata)"
    using assms 1
    by (cases "getfileMediaInfo e fileName")
       (auto simp add: handle_def Let_def split: option.splits)
  obtain fileSize where 3: "ContentLength fileMetadata = Some fileSize" "fileSize \<noteq> 0"
    using assms 1 2
    by (cases "ContentLength fileMetadata") (auto simp add: handle_def Let_def split: if_splits)
  obtain n where 4: "negotiate (header_range req) fileSize = Some n"
    using assms 1 2 3
    by (cases "negotiate (header_range req) fileSize") (auto simp add: handle_def Let_def)
  obtain resp where
    5: "getFileRange e fileName (start (served n)) (endp (served n)) = Returned (Some resp)"
    using assms 1 2 3 4
    by (cases "getFileRange e fileName (start (served n)) (endp (served n))")
       (auto simp add: handle_def Let_def split: option.splits)
  obtain bytes where 6: "Body resp = Some bytes"
    using assms 1 2 3 4 5 by (cases "Body resp") (auto simp add: handle_def Let_def)
  have "handle e req =
          \<lparr>status = (if isPartialContent n then 206 else 200),
           headers = buildHeaders e fileName fileSize n (ContentType resp),
           body = StreamBody bytes\<rparr>"
    using 1 2 3 4 5 6 by (simp add: handle_def Let_def)
  with 1 2 3 4 5 6 show ?thesis by blast
qed

lemma handle_status_success:
  assumes "status (handle e req) = 200 \<or> status (handle e req) = 206"
  shows "headers (handle e req) \<noteq> []"
  using assms
  by (auto simp add: handle_def Let_def buildHeaders_def
      split: option.splits outcome.splits if_splits)

lemma buildHeaders_cacheControl:
  "map_of (buildHeaders e fileName fileSize n storedType) ''Cache-Control''
     = Some (cacheControl (isFirstRequest n) fileSize (isPartialContent n))"
  by (simp add: buildHeaders_def Let_def)

lemma buildHeaders_next_range:
  "map_of (buildHeaders e fileName fileSize n storedType) ''X-Next-Range'' =
     (if isPartialContent n \<and> endp (served n) < fileSize - 1 then
        Some (''bytes='' @ toString (endp (served n) + 1) @ ''-''
              @ toString (min (endp (served n) + 1 + (endp (served n) - start (served n) + 1) - 1)
                              (fileSize - 1)))
      else None)"
  by (simp add: buildHeaders_def Let_def) (simp add: algebra_simps)

lemma negotiate_valid:
  assumes "negotiate rangeHeader fileSize = Some n"
    and "isPartialContent n" and "endp (served n) < fileSize - 1"
  shows "0 \<le> start (served n) \<and> start (served n) \<le> endp (served n)"
proof -
  have first: "0 \<le> start (optimizeRange \<lparr>start = 0, endp = fileSize - 1\<rparr> fileSize True)
      \<and> start (optimizeRange \<lparr>start = 0, endp = fileSize - 1\<rparr> fileSize True)
          \<le> endp (optimizeRange \<lparr>start = 0, endp = fileSize - 1\<rparr> fileSize True)"
    if "endp (optimizeRange \<lparr>start = 0, endp = fileSize - 1\<rparr> fileSize True) < fileSize - 1"
    using that by (auto simp add: optimizeRange_def Let_def split: if_splits)
  have ranged: "0 \<le> start (optimizeRange p fileSize (start p = 0))
      \<and> start (optimizeRange p fileSize (start p = 0)) \<le> endp (optimizeRange p fileSize (start p = 0))"
    if "parseRange r fileSize = Some p" for r p
  proof -
    from parseRange_SomeD [OF that] have v: "0 \<le> start p" "start p \<le> endp p" "endp p < fileSize"
      by simp_all
    then show ?thesis by (auto simp add: optimizeRange_def Let_def)
  qed
  show ?thesis
  proof (cases "\<exists>r. rangeHeader = Some r \<and> r \<noteq> []")
    case True
    then obtain r where r: "rangeHeader = Some r" "r \<noteq> []" by blast
    with assms(1) obtain p where p: "parseRange r fileSize = Some p"
      and n: "served n = optimizeRange p fileSize (start p = 0)"
      by (auto simp add: negotiate_def Let_def split: option.splits)
    from ranged [OF p] n show ?thesis by simp
  next
    case False
    with assms(1) have
      "served n = optimizeRange \<lparr>start = 0, endp = fileSize - 1\<rparr> fileSize True"
      by (auto simp add: negotiate_def Let_def split: option.splits if_splits)
    with first assms(3) show ?thesis by simp
  qed
qed

subsection \<open>Evaluating the scenarios\<close>

lemma digit_char_values:
  "digit_char 0 = CHR ''0''" "digit_char (Suc 0) = CHR ''1''" "digit_char 2 = CHR ''2''"
  "digit_char 3 = CHR ''3''" "digit_char 4 = CHR ''4''" "digit_char 5 = CHR ''5''"
  "digit_char 6 = CHR ''6''" "digit_char 7 = CHR ''7''" "digit_char 8 = CHR ''8''"
  "digit_char 9 = CHR ''9''"
  unfolding digit_char_def by code_simp+

lemmas toString_eval = toString_def nat_digits_small nat_digits_large digit_char_values

lemmas parseRange_eval =
  parseRange_def match_at_def is_digit_def less_eq_char_def parseInt_def digit_val_def

lemma contentTypeFor_lion: "contentTypeFor ''lion.mp3'' (Some ''audio/mpeg'') = ''audio/mpeg''"
  by (simp add: contentTypeFor_def toLowerCase_def mimeTypes_def less_eq_char_def)

lemma encodeURIComponent_lion: "encodeURIComponent ''lion.mp3'' = ''lion.mp3''"
  by (simp add: encodeURIComponent_def uri_unreserved_def is_digit_def less_eq_char_def)

lemma negotiate_no_range_4MB:
  "negotiate None 4194304 =
     Some \<lparr>served = \<lparr>start = 0, endp = 1048576\<rparr>,
           isPartialContent = True, isFirstRequest = True\<rparr>"
  by (simp add: negotiate_def optimizeRange_def)

lemma negotiate_small_range_4MB:
  "negotiate (Some ''bytes=2097152-2097663'') 4194304 =
     Some \<lparr>served = \<lparr>start = 2097152, endp = 2621439\<rparr>,
           isPartialContent = True, isFirstRequest = False\<rparr>"
  by (simp add: negotiate_def optimizeRange_def parseRange_eval)

lemma handle_no_range_4MB:
  "handle (storage_with 4194304) (request_for None) =
     \<lparr>status = 206,
      headers =
        [(''Content-Type'', ''audio/mpeg''),
         (''Content-Length'', ''1048577''),
         (''Accept-Ranges'', ''bytes''),
         (''Cache-Control'', ''public, max-age=31536000, immutable''),
         (''Access-Control-Allow-Origin'', ''*''),
         (''X-Content-Type-Options'', ''nosniff''),
         (''X-Frame-Options'', ''DENY''),
         (''Referrer-Policy'', ''strict-origin-when-cross-origin''),
         (''Content-Disposition'', ''inline''),
         (''Link'', ''</api/audio/stream?file=lion.mp3>; rel=prefetch; as=audio''),
         (''X-Next-Range'', ''bytes=1048577-2097153''),
         (''Content-Range'', ''bytes 0-1048576/4194304'')],
      body = StreamBody ''...''\<rparr>"
  by (simp add: handle_def negotiate_no_range_4MB request_for_def storage_with_def
      buildHeaders_def contentTypeFor_lion encodeURIComponent_lion cacheControl_def
      toString_eval)

lemma handle_small_range_4MB:
  "handle (storage_with 4194304) (request_for (Some ''bytes=2097152-2097663'')) =
     \<lparr>status = 206,
      headers =
        [(''Content-Type'', ''audio/mpeg''),
         (''Content-Length'', ''524288''),
         (''Accept-Ranges'', ''bytes''),
         (''Cache-Control'', ''public, max-age=31536000, immutable''),
         (''Access-Control-Allow-Origin'', ''*''),
         (''X-Content-Type-Options'', ''nosniff''),
         (''X-Frame-Options'', ''DENY''),
         (''Referrer-Policy'', ''strict-origin-when-cross-origin''),
         (''Content-Disposition'', ''inline''),
         (''Link'', ''</api/audio/stream?file=lion.mp3>; rel=prefetch; as=audio''),
         (''X-Next-Range'', ''bytes=2621440-3145727''),
         (''Content-Range'', ''bytes 2097152-2621439/4194304'')],
      body = StreamBody ''...''\<rparr>"
  by (simp add: handle_def negotiate_small_range_4MB request_for_def storage_with_def
      buildHeaders_def contentTypeFor_lion encodeURIComponent_lion cacheControl_def
      toString_eval)

section \<open>The claims\<close>

subsection \<open>C1: what \<^verbatim>\<open>parseRange\<close> accepts\<close>

text \<open>
  C1, as stated: \<^verbatim>\<open>parseRange\<close> fails whenever the header does not match the grammar
  \<^verbatim>\<open>bytes=<start>-<end>\<close>. It does not: the pattern is searched for in the header, so a header
  with text after the range, such as \<^verbatim>\<open>bytes=5-abc\<close> or the multi-range \<^verbatim>\<open>bytes=0-4,10-14\<close>,
  is outside the grammar and still parses (to 5..9 of a 10-byte object, and to 0..4).
\<close>

theorem parseRange_accepts_outside_grammar:
  "\<not> spec_single_range ''bytes=5-abc''
   \<and> parseRange ''bytes=5-abc'' 10 = Some \<lparr>start = 5, endp = 9\<rparr>
   \<and> \<not> spec_single_range ''bytes=0-4,10-14''
   \<and> parseRange ''bytes=0-4,10-14'' 100 = Some \<lparr>start = 0, endp = 4\<rparr>"
  by code_simp

text \<open>
  C1, amended. (1) On a header that is exactly \<^verbatim>\<open>bytes=<digits>-<digits>\<close>, \<^verbatim>\<open>parseRange\<close>
  reads the two bounds (an empty start is 0, an empty end is \<open>objectSize - 1\<close>) and returns
  exactly that interval unless start \<open>\<ge>\<close> objectSize, end \<open>\<ge>\<close> objectSize or start \<open>>\<close> end,
  where it fails. (2) In particular every interval with \<open>0 \<le> start \<le> end < objectSize\<close>,
  written in decimal, is returned as it is. (3) On any header, it fails exactly when the
  header contains no occurrence of \<^verbatim>\<open>bytes=<digits>-\<close> at all, or the bounds captured at
  the first occurrence are out of range in one of those three ways.
\<close>

theorem parseRange_searches_pattern:
  "(list_all is_digit d1 \<and> list_all is_digit d2 \<longrightarrow>
      parseRange (''bytes='' @ d1 @ ''-'' @ d2) objectSize =
        (let s = (if d1 \<noteq> [] then parseInt d1 else 0);
             e = (if d2 \<noteq> [] then parseInt d2 else objectSize - 1)
         in if s \<ge> objectSize \<or> e \<ge> objectSize \<or> s > e then None
            else Some \<lparr>start = s, endp = e\<rparr>))
   \<and> (0 \<le> s \<and> s \<le> e \<and> e < objectSize \<longrightarrow>
        parseRange (''bytes='' @ toString s @ ''-'' @ toString e) objectSize
          = Some \<lparr>start = s, endp = e\<rparr>)
   \<and> (parseRange h objectSize = None \<longleftrightarrow>
        (\<not> (\<exists>pre d rest. h = pre @ ''bytes='' @ d @ ''-'' @ rest \<and> list_all is_digit d))
        \<or> (\<exists>m1 m2. regex_match h = Some (m1, m2) \<and>
             (let s = (if m1 \<noteq> [] then parseInt m1 else 0);
                  e = (if m2 \<noteq> [] then parseInt m2 else objectSize - 1)
              in s \<ge> objectSize \<or> e \<ge> objectSize \<or> s > e)))"
proof (intro conjI impI)
  assume "list_all is_digit d1 \<and> list_all is_digit d2"
  then show "parseRange (''bytes='' @ d1 @ ''-'' @ d2) objectSize =
        (let s = (if d1 \<noteq> [] then parseInt d1 else 0);
             e = (if d2 \<noteq> [] then parseInt d2 else objectSize - 1)
         in if s \<ge> objectSize \<or> e \<ge> objectSize \<or> s > e then None
            else Some \<lparr>start = s, endp = e\<rparr>)"
    using parseRange_exact_header by blast
next
  assume "0 \<le> s \<and> s \<le> e \<and> e < objectSize"
  then show "parseRange (''bytes='' @ toString s @ ''-'' @ toString e) objectSize
          = Some \<lparr>start = s, endp = e\<rparr>"
    using parseRange_toString by blast
next
  have n: "regex_match h = None \<longleftrightarrow>
     \<not> (\<exists>pre d rest. h = pre @ ''bytes='' @ d @ ''-'' @ rest \<and> list_all is_digit d)"
    using regex_match_None_iff [of h] by simp
  show "parseRange h objectSize = None \<longleftrightarrow>
        (\<not> (\<exists>pre d rest. h = pre @ ''bytes='' @ d @ ''-'' @ rest \<and> list_all is_digit d))
        \<or> (\<exists>m1 m2. regex_match h = Some (m1, m2) \<and>
             (let s = (if m1 \<noteq> [] then parseInt m1 else 0);
                  e = (if m2 \<noteq> [] then parseInt m2 else objectSize - 1)
              in s \<ge> objectSize \<or> e \<ge> objectSize \<or> s > e))"
  proof (cases "regex_match h")
    case None
    then show ?thesis using n by (simp add: parseRange_def)
  next
    case (Some m)
    obtain m1 m2 where m: "m = (m1, m2)" by (cases m)
    have ex: "\<exists>pre d rest. h = pre @ ''bytes='' @ d @ ''-'' @ rest \<and> list_all is_digit d"
      using n Some by simp
    show ?thesis
      unfolding parseRange_def Some m using ex
      by (simp add: Let_def)
  qed
qed

text \<open>C1, amended: the theorem at the headers \<^verbatim>\<open>bytes=5-\<close>, \<^verbatim>\<open>bytes=2-7\<close> and \<^verbatim>\<open>bytes=12-\<close>
  for an object of 10 bytes.\<close>

theorem parseRange_searches_pattern_witness:
  "parseRange (''bytes='' @ ''5'' @ ''-'' @ []) 10 = Some \<lparr>start = 5, endp = 9\<rparr>
   \<and> parseRange (''bytes='' @ toString 2 @ ''-'' @ toString 7) 10 = Some \<lparr>start = 2, endp = 7\<rparr>
   \<and> parseRange ''bytes=12-'' 10 = None"
proof -
  note T = parseRange_searches_pattern [of "''5''" "[]" 10 2 7 "''bytes=12-''"]
  have d: "list_all is_digit ''5'' \<and> list_all is_digit []" by code_simp
  have "parseRange (''bytes='' @ ''5'' @ ''-'' @ []) 10 =
        (let s = (if ''5'' \<noteq> [] then parseInt ''5'' else 0);
             e = (if ([]::string) \<noteq> [] then parseInt [] else 10 - 1)
         in if s \<ge> 10 \<or> e \<ge> 10 \<or> s > e then None
            else Some \<lparr>start = s, endp = e\<rparr>)"
    using T d by blast
  then have a: "parseRange (''bytes='' @ ''5'' @ ''-'' @ []) 10 = Some \<lparr>start = 5, endp = 9\<rparr>"
    by (simp add: parseInt_def digit_val_def)
  have b: "parseRange (''bytes='' @ toString 2 @ ''-'' @ toString 7) 10 = Some \<lparr>start = 2, endp = 7\<rparr>"
    using T by simp
  have m: "regex_match ''bytes=12-'' = Some (''12'', [])" by code_simp
  have "let s = (if ''12'' \<noteq> [] then parseInt ''12'' else 0);
            e = (if ([]::string) \<noteq> [] then parseInt [] else 10 - 1)
        in s \<ge> (10::int) \<or> e \<ge> 10 \<or> s > e"
    by (simp add: parseInt_def digit_val_def)
  with m have "\<exists>m1 m2. regex_match ''bytes=12-'' = Some (m1, m2) \<and>
             (let s = (if m1 \<noteq> [] then parseInt m1 else 0);
                  e = (if m2 \<noteq> [] then parseInt m2 else 10 - 1)
              in s \<ge> 10 \<or> e \<ge> 10 \<or> s > e)"
    by blast
  with T have c: "parseRange ''bytes=12-'' 10 = None" by blast
  from a b c show ?thesis by blast
qed

subsection \<open>C2 and C3: \<^verbatim>\<open>optimizeRange\<close> stays inside the object\<close>

text \<open>
  C2: for a requested range with \<open>0 \<le> start \<le> end \<le> objectSize - 1\<close>, a positive object
  size and either value of the first-request flag, the optimized range satisfies
  \<open>0 \<le> start \<le> end \<le> objectSize - 1\<close>.
\<close>

theorem optimizeRange_within_object:
  assumes "0 \<le> start requested" and "start requested \<le> endp requested"
    and "endp requested \<le> objectSize - 1" and "0 < objectSize"
  shows "0 \<le> start (optimizeRange requested objectSize firstRequest)
       \<and> start (optimizeRange requested objectSize firstRequest)
           \<le> endp (optimizeRange requested objectSize firstRequest)
       \<and> endp (optimizeRange requested objectSize firstRequest) \<le> objectSize - 1"
  using assms by (auto simp add: optimizeRange_def Let_def)

text \<open>C2 at the request 0..99 on an object of 6,000,000 bytes, a first request.\<close>

theorem optimizeRange_within_object_witness:
  "(0::int) \<le> 0 \<and> (0::int) \<le> 99 \<and> (99::int) \<le> 6000000 - 1 \<and> (0::int) < 6000000
   \<and> optimizeRange \<lparr>start = 0, endp = 99\<rparr> 6000000 True = \<lparr>start = 0, endp = 2097152\<rparr>
   \<and> 0 \<le> start (optimizeRange \<lparr>start = 0, endp = 99\<rparr> 6000000 True)
   \<and> start (optimizeRange \<lparr>start = 0, endp = 99\<rparr> 6000000 True)
       \<le> endp (optimizeRange \<lparr>start = 0, endp = 99\<rparr> 6000000 True)
   \<and> endp (optimizeRange \<lparr>start = 0, endp = 99\<rparr> 6000000 True) \<le> 6000000 - 1"
proof -
  have v: "optimizeRange \<lparr>start = 0, endp = 99\<rparr> 6000000 True = \<lparr>start = 0, endp = 2097152\<rparr>"
    by (simp add: optimizeRange_def)
  show ?thesis
    using v optimizeRange_within_object [of "\<lparr>start = 0, endp = 99\<rparr>" 6000000 True] by simp
qed

text \<open>
  C3: under the steady-state policy (the flag is false, or the requested start is not 0) a
  valid requested range keeps its start, its end does not decrease and stays at most
  \<open>objectSize - 1\<close>, and a range that already ends at \<open>objectSize - 1\<close> is returned
  unchanged.
\<close>

theorem steady_state_never_shrinks:
  assumes "0 \<le> start requested" and "start requested \<le> endp requested"
    and "endp requested \<le> objectSize - 1"
    and "\<not> firstRequest \<or> start requested \<noteq> 0"
  shows "start (optimizeRange requested objectSize firstRequest) = start requested
       \<and> endp requested \<le> endp (optimizeRange requested objectSize firstRequest)
       \<and> endp (optimizeRange requested objectSize firstRequest) \<le> objectSize - 1
       \<and> (endp requested = objectSize - 1
            \<longrightarrow> optimizeRange requested objectSize firstRequest = requested)"
  using assms by (auto simp add: optimizeRange_def Let_def)

text \<open>
  C3 at two requests on an object of 4,194,304 bytes: 4000000..4194303 reaches the last
  byte and is unchanged; 100..199 is expanded to the 512 KB chunk 100..524387.
\<close>

theorem steady_state_never_shrinks_witness:
  "optimizeRange \<lparr>start = 4000000, endp = 4194303\<rparr> 4194304 False
     = \<lparr>start = 4000000, endp = 4194303\<rparr>
   \<and> start (optimizeRange \<lparr>start = 100, endp = 199\<rparr> 4194304 False) = 100
   \<and> 199 \<le> endp (optimizeRange \<lparr>start = 100, endp = 199\<rparr> 4194304 False)
   \<and> endp (optimizeRange \<lparr>start = 100, endp = 199\<rparr> 4194304 False) \<le> 4194304 - 1
   \<and> optimizeRange \<lparr>start = 100, endp = 199\<rparr> 4194304 False = \<lparr>start = 100, endp = 524387\<rparr>"
proof -
  have a: "optimizeRange \<lparr>start = 4000000, endp = 4194303\<rparr> 4194304 False
             = \<lparr>start = 4000000, endp = 4194303\<rparr>"
    using steady_state_never_shrinks [of "\<lparr>start = 4000000, endp = 4194303\<rparr>" 4194304 False]
    by simp
  have b: "start (optimizeRange \<lparr>start = 100, endp = 199\<rparr> 4194304 False) = 100
         \<and> 199 \<le> endp (optimizeRange \<lparr>start = 100, endp = 199\<rparr> 4194304 False)
         \<and> endp (optimizeRange \<lparr>start = 100, endp = 199\<rparr> 4194304 False) \<le> 4194304 - 1"
    using steady_state_never_shrinks [of "\<lparr>start = 100, endp = 199\<rparr>" 4194304 False]
    by simp
  have c: "optimizeRange \<lparr>start = 100, endp = 199\<rparr> 4194304 False = \<lparr>start = 100, endp = 524387\<rparr>"
    by (simp add: optimizeRange_def)
  from a b c show ?thesis by blast
qed

subsection \<open>C4: the first request for a 4 MB object\<close>

text \<open>
  C4, as stated: with no Range header and an object of 4,194,304 bytes the handler serves
  0..1048575 with the policy \<^verbatim>\<open>max-age=86400, stale-while-revalidate=3600\<close>. On a storage
  holding such an object the response is partial (206), its \<^verbatim>\<open>Content-Range\<close> is
  \<^verbatim>\<open>bytes 0-1048576/4194304\<close>, and its \<^verbatim>\<open>Cache-Control\<close> is the immutable policy of partial
  content, not the revalidatable one.
\<close>

theorem first_request_4MB_response:
  "status (handle (storage_with 4194304) (request_for None)) = 206
   \<and> map_of (headers (handle (storage_with 4194304) (request_for None))) ''Content-Range''
       = Some ''bytes 0-1048576/4194304''
   \<and> map_of (headers (handle (storage_with 4194304) (request_for None))) ''Content-Range''
       \<noteq> Some ''bytes 0-1048575/4194304''
   \<and> map_of (headers (handle (storage_with 4194304) (request_for None))) ''Cache-Control''
       = Some ''public, max-age=31536000, immutable''
   \<and> map_of (headers (handle (storage_with 4194304) (request_for None))) ''Cache-Control''
       \<noteq> Some ''public, max-age=86400, stale-while-revalidate=3600''"
  by (simp add: handle_no_range_4MB)

text \<open>
  C4, amended: for an object of 4,194,304 bytes that the storage can read, and a request
  with no Range header, the handler applies the first-request policy (the range
  \<^verbatim>\<open>optimizeRange\<close> gives for 0..4194303 with the flag set), which starts at byte 0 and ends
  before the last byte; the response has status 206 and the \<^verbatim>\<open>Cache-Control\<close> policy
  \<^verbatim>\<open>public, max-age=31536000, immutable\<close>.
\<close>

theorem first_request_4MB:
  assumes "param_file req = Some fileName" and "fileName \<noteq> []"
    and "header_range req = None"
    and "getfileMediaInfo e fileName = Returned (Some fileMetadata)"
    and "ContentLength fileMetadata = Some 4194304"
    and "getFileRange e fileName 0
           (endp (optimizeRange \<lparr>start = 0, endp = 4194303\<rparr> 4194304 True))
         = Returned (Some resp)"
    and "Body resp = Some bytes"
  shows "status (handle e req) = 206
       \<and> map_of (headers (handle e req)) ''Cache-Control''
           = Some ''public, max-age=31536000, immutable''
       \<and> body (handle e req) = StreamBody bytes
       \<and> (\<exists>n. negotiate (header_range req) 4194304 = Some n
              \<and> isFirstRequest n \<and> isPartialContent n
              \<and> served n = optimizeRange \<lparr>start = 0, endp = 4194303\<rparr> 4194304 True
              \<and> start (served n) = 0 \<and> endp (served n) < 4194303)"
proof -
  have o: "optimizeRange \<lparr>start = 0, endp = 4194303\<rparr> 4194304 True
             = \<lparr>start = 0, endp = 1048576\<rparr>"
    by (simp add: optimizeRange_def)
  have n: "negotiate (header_range req) 4194304 =
             Some \<lparr>served = \<lparr>start = 0, endp = 1048576\<rparr>,
                   isPartialContent = True, isFirstRequest = True\<rparr>"
    using assms(3) by (simp add: negotiate_no_range_4MB)
  have r: "getFileRange e fileName 0 1048576 = Returned (Some resp)" using assms(6) o by simp
  have h: "handle e req =
            \<lparr>status = 206,
             headers = buildHeaders e fileName 4194304
                         \<lparr>served = \<lparr>start = 0, endp = 1048576\<rparr>,
                          isPartialContent = True, isFirstRequest = True\<rparr> (ContentType resp),
             body = StreamBody bytes\<rparr>"
    using assms(1,2,4,5,7) n r by (simp add: handle_def)
  have c: "map_of (headers (handle e req)) ''Cache-Control''
             = Some ''public, max-age=31536000, immutable''"
    by (simp only: h response.simps buildHeaders_cacheControl) (simp add: cacheControl_def)
  from h c n o show ?thesis by simp
qed

text \<open>C4, amended: the theorem on the storage that holds \<^verbatim>\<open>lion.mp3\<close> with 4,194,304 bytes.\<close>

theorem first_request_4MB_witness:
  "status (handle (storage_with 4194304) (request_for None)) = 206
   \<and> map_of (headers (handle (storage_with 4194304) (request_for None))) ''Cache-Control''
       = Some ''public, max-age=31536000, immutable''
   \<and> body (handle (storage_with 4194304) (request_for None)) = StreamBody ''...''"
  using first_request_4MB
    [of "request_for None" "''lion.mp3''" "storage_with 4194304"
        "\<lparr>ContentLength = Some 4194304, ContentType = Some ''audio/mpeg'', Body = Some ''...''\<rparr>"
        "\<lparr>ContentLength = Some 1048577, ContentType = Some ''audio/mpeg'', Body = Some ''...''\<rparr>"
        "''...''"]
  by (simp add: request_for_def storage_with_def optimizeRange_def)

subsection \<open>C5: a 512-byte request in the middle of a 4 MB object\<close>

text \<open>
  C5, as stated: the request \<^verbatim>\<open>bytes=2097152-2097663\<close> on an object of 4,194,304 bytes is
  expanded to 2097152..2621695. The steady-state policy ends the range at
  \<open>2097152 + 524288 - 1 = 2621439\<close>, and that is the range the handler serves.
\<close>

theorem small_range_not_2621695:
  "optimizeRange \<lparr>start = 2097152, endp = 2097663\<rparr> 4194304 False
     \<noteq> \<lparr>start = 2097152, endp = 2621695\<rparr>
   \<and> map_of (headers (handle (storage_with 4194304)
                          (request_for (Some ''bytes=2097152-2097663'')))) ''Content-Range''
       = Some ''bytes 2097152-2621439/4194304''"
  by (simp add: handle_small_range_4MB optimizeRange_def)

text \<open>
  C5, amended: for an object of 4,194,304 bytes the header \<^verbatim>\<open>bytes=2097152-2097663\<close> parses
  to 2097152..2097663, is not a first request, and the steady-state policy of the tier
  below 5 MB (chunk 512 KB) expands it to exactly 2097152..2621439.
\<close>

theorem small_range_expanded:
  "parseRange ''bytes=2097152-2097663'' 4194304 = Some \<lparr>start = 2097152, endp = 2097663\<rparr>
   \<and> optimizeRange \<lparr>start = 2097152, endp = 2097663\<rparr> 4194304 False
       = \<lparr>start = 2097152, endp = 2621439\<rparr>
   \<and> negotiate (Some ''bytes=2097152-2097663'') 4194304 =
       Some \<lparr>served = \<lparr>start = 2097152, endp = 2621439\<rparr>,
             isPartialContent = True, isFirstRequest = False\<rparr>"
  by (simp add: negotiate_small_range_4MB optimizeRange_def parseRange_eval)

subsection \<open>C6: the cache policy\<close>

text \<open>
  C6: for every response with body bytes (status 200 or 206) the \<^verbatim>\<open>Cache-Control\<close> header is
  a function of the flags the handler computed and the object size, by this table in this
  order: \<^verbatim>\<open>public, max-age=7200, stale-while-revalidate=3600\<close> for a first request on an
  object larger than 10 MB; otherwise \<^verbatim>\<open>public, max-age=31536000, immutable\<close> for partial
  content; otherwise \<^verbatim>\<open>public, max-age=86400, stale-while-revalidate=3600\<close>.
\<close>

theorem cache_policy_table:
  assumes "status (handle e req) = 200 \<or> status (handle e req) = 206"
  shows "\<exists>fileName fileMetadata fileSize n.
           param_file req = Some fileName
         \<and> getfileMediaInfo e fileName = Returned (Some fileMetadata)
         \<and> ContentLength fileMetadata = Some fileSize
         \<and> negotiate (header_range req) fileSize = Some n
         \<and> status (handle e req) = (if isPartialContent n then 206 else 200)
         \<and> map_of (headers (handle e req)) ''Cache-Control'' =
             Some (if isFirstRequest n \<and> fileSize > 10 * 1024 * 1024
                   then ''public, max-age=7200, stale-while-revalidate=3600''
                   else if isPartialContent n then ''public, max-age=31536000, immutable''
                   else ''public, max-age=86400, stale-while-revalidate=3600'')"
proof -
  from handle_status_success [OF assms] have "headers (handle e req) \<noteq> []" .
  from handle_with_headers [OF this] obtain fileName fileMetadata fileSize n and resp :: GetObjectCommandOutput and bytes where
    f: "param_file req = Some fileName" "getfileMediaInfo e fileName = Returned (Some fileMetadata)"
       "ContentLength fileMetadata = Some fileSize"
    and n: "negotiate (header_range req) fileSize = Some n"
    and h: "handle e req =
              \<lparr>status = (if isPartialContent n then 206 else 200),
               headers = buildHeaders e fileName fileSize n (ContentType resp),
               body = StreamBody bytes\<rparr>"
    by auto
  have "map_of (headers (handle e req)) ''Cache-Control'' =
             Some (if isFirstRequest n \<and> fileSize > 10 * 1024 * 1024
                   then ''public, max-age=7200, stale-while-revalidate=3600''
                   else if isPartialContent n then ''public, max-age=31536000, immutable''
                   else ''public, max-age=86400, stale-while-revalidate=3600'')"
    by (simp only: h response.simps buildHeaders_cacheControl cacheControl_def)
  moreover have "status (handle e req) = (if isPartialContent n then 206 else 200)"
    by (simp only: h response.simps)
  ultimately show ?thesis using f n by blast
qed

text \<open>C6 on the first request for the object of 4,194,304 bytes.\<close>

theorem cache_policy_table_witness:
  "status (handle (storage_with 4194304) (request_for None)) = 206
   \<and> (\<exists>fileName fileMetadata fileSize n.
           param_file (request_for None) = Some fileName
         \<and> getfileMediaInfo (storage_with 4194304) fileName = Returned (Some fileMetadata)
         \<and> ContentLength fileMetadata = Some fileSize
         \<and> negotiate (header_range (request_for None)) fileSize = Some n
         \<and> status (handle (storage_with 4194304) (request_for None))
             = (if isPartialContent n then 206 else 200)
         \<and> map_of (headers (handle (storage_with 4194304) (request_for None))) ''Cache-Control'' =
             Some (if isFirstRequest n \<and> fileSize > 10 * 1024 * 1024
                   then ''public, max-age=7200, stale-while-revalidate=3600''
                   else if isPartialContent n then ''public, max-age=31536000, immutable''
                   else ''public, max-age=86400, stale-while-revalidate=3600''))"
proof -
  have s: "status (handle (storage_with 4194304) (request_for None)) = 206"
    by (simp add: handle_no_range_4MB)
  then have "status (handle (storage_with 4194304) (request_for None)) = 200
           \<or> status (handle (storage_with 4194304) (request_for None)) = 206" by simp
  from cache_policy_table [OF this] s show ?thesis by blast
qed

subsection \<open>C7: thirty admissions per window\<close>

text \<open>
  C7: start from a table without the identifier. The first call for it, whose own clock
  reading is \<open>t0\<close>, and the calls that follow (for any identifiers), all with both clock
  readings at most \<open>t0 + 60000\<close>: the calls for the identifier are admitted up to the
  thirtieth and refused from the thirty-first on, and its entry ends with the count
  \<open>min 30 (number of its calls)\<close>, so a refusal does not increment, and the reset time
  \<open>t0 + 60000\<close>. From any table, a call for an identifier whose stored reset time is
  below the call's clock reading is admitted and leaves the entry with count 1 and reset
  time \<open>now + 60000\<close>.
\<close>

theorem rate_limit_window:
  assumes "m ident = None"
    and "\<forall>(c, t, i) \<in> set calls. c \<le> t0 + 60000 \<and> t \<le> t0 + 60000"
  shows "admissions ident ((c0, t0, ident) # calls) m
           = map (\<lambda>j. j < 30) [0..<Suc (length (filter (\<lambda>(c, t, i). i = ident) calls))]
       \<and> snd (checkRateLimit_calls ((c0, t0, ident) # calls) m) ident
           = Some \<lparr>count = min 30 (1 + int (length (filter (\<lambda>(c, t, i). i = ident) calls))),
                    resetTime = t0 + 60000\<rparr>
       \<and> (\<forall>m' v c now. m' ident = Some v \<and> resetTime v < now \<longrightarrow>
             fst (checkRateLimit c now ident m')
             \<and> snd (checkRateLimit c now ident m') ident
                 = Some \<lparr>count = 1, resetTime = now + 60000\<rparr>)"
proof -
  let ?m = "snd (checkRateLimit c0 t0 ident m)"
  have first: "fst (checkRateLimit c0 t0 ident m)"
    "?m ident = Some \<lparr>count = 1, resetTime = t0 + 60000\<rparr>"
    using check_fresh [of m ident c0 t0] assms(1) by simp_all
  note inv = window_invariant [of ?m ident 1 "t0 + 60000" calls, OF first(2) assms(2)]
  have shift: "map (\<lambda>j. 1 + int j < 30) [0..<n'] = map (\<lambda>j. Suc j < 30) [0..<n']" for n'
    by auto
  have a: "admissions ident ((c0, t0, ident) # calls) m
           = map (\<lambda>j. j < 30) [0..<Suc (length (filter (\<lambda>(c, t, i). i = ident) calls))]"
    unfolding map_upt_Suc_shift using first(1) inv shift by (simp add: admissions_Cons)
  have b: "snd (checkRateLimit_calls ((c0, t0, ident) # calls) m) ident
           = Some \<lparr>count = min 30 (1 + int (length (filter (\<lambda>(c, t, i). i = ident) calls))),
                    resetTime = t0 + 60000\<rparr>"
    using inv by (simp only: calls_Cons_table) simp
  have c: "\<forall>m' v c now. m' ident = Some v \<and> resetTime v < now \<longrightarrow>
             fst (checkRateLimit c now ident m')
             \<and> snd (checkRateLimit c now ident m') ident
                 = Some \<lparr>count = 1, resetTime = now + 60000\<rparr>"
    using check_expired by blast
  from a b c show ?thesis by blast
qed

text \<open>
  C7 on 31 calls for one address, the first at time 1000 and the others at 1500, and on a
  call at 61001 against an entry that expired at 61000.
\<close>

theorem rate_limit_window_witness:
  "admissions ''10.0.0.1''
      ((1000, 1000, ''10.0.0.1'') # replicate 30 (1500, 1500, ''10.0.0.1'')) Map.empty
     = replicate 30 True @ [False]
   \<and> snd (checkRateLimit_calls
            ((1000, 1000, ''10.0.0.1'') # replicate 30 (1500, 1500, ''10.0.0.1'')) Map.empty)
         ''10.0.0.1''
       = Some \<lparr>count = 30, resetTime = 61000\<rparr>
   \<and> fst (checkRateLimit 61001 61001 ''10.0.0.1''
             [''10.0.0.1'' \<mapsto> \<lparr>count = 30, resetTime = 61000\<rparr>])
   \<and> snd (checkRateLimit 61001 61001 ''10.0.0.1''
             [''10.0.0.1'' \<mapsto> \<lparr>count = 30, resetTime = 61000\<rparr>]) ''10.0.0.1''
       = Some \<lparr>count = 1, resetTime = 121001\<rparr>"
proof -
  have fresh: "(Map.empty :: rateLimitMap) ''10.0.0.1'' = None" by simp
  have window: "\<forall>(c, t, i) \<in> set (replicate 30 (1500::int, 1500::int, ''10.0.0.1'')).
                  c \<le> 1000 + 60000 \<and> t \<le> 1000 + 60000"
    by simp
  have n: "length (filter (\<lambda>(c, t, i). i = ''10.0.0.1'')
                    (replicate 30 (1500::int, 1500::int, ''10.0.0.1''))) = 30"
    by simp
  have l: "map (\<lambda>j. j < 30) [0..<Suc 30] = replicate 30 True @ [False]"
    by (simp add: upt_rec numeral_eq_Suc)
  note T = rate_limit_window
    [where m = "Map.empty" and ident = "''10.0.0.1''"
       and calls = "replicate 30 (1500, 1500, ''10.0.0.1'')" and ?t0.0 = 1000 and ?c0.0 = 1000,
     OF fresh window, unfolded n]
  have a: "admissions ''10.0.0.1''
      ((1000, 1000, ''10.0.0.1'') # replicate 30 (1500, 1500, ''10.0.0.1'')) Map.empty
     = replicate 30 True @ [False]"
    by (rule T [unfolded l, THEN conjunct1])
  have b: "snd (checkRateLimit_calls
            ((1000, 1000, ''10.0.0.1'') # replicate 30 (1500, 1500, ''10.0.0.1'')) Map.empty)
         ''10.0.0.1''
       = Some \<lparr>count = 30, resetTime = 61000\<rparr>"
    using T [THEN conjunct2, THEN conjunct1] by simp
  note T3 = T [THEN conjunct2, THEN conjunct2]
  have "[''10.0.0.1'' \<mapsto> \<lparr>count = 30, resetTime = 61000\<rparr>] ''10.0.0.1''
          = Some \<lparr>count = 30, resetTime = 61000\<rparr>
        \<and> resetTime \<lparr>count = 30, resetTime = 61000\<rparr> < 61001"
    by simp
  with T3 have c: "fst (checkRateLimit 61001 61001 ''10.0.0.1''
             [''10.0.0.1'' \<mapsto> \<lparr>count = 30, resetTime = 61000\<rparr>])
   \<and> snd (checkRateLimit 61001 61001 ''10.0.0.1''
             [''10.0.0.1'' \<mapsto> \<lparr>count = 30, resetTime = 61000\<rparr>]) ''10.0.0.1''
       = Some \<lparr>count = 1, resetTime = 61001 + 60000\<rparr>"
    by blast
  from a b c show ?thesis by simp
qed

subsection \<open>C8: the handler and the rate-limit table\<close>

text \<open>
  C8: \<^verbatim>\<open>GET\<close> never calls \<^verbatim>\<open>checkRateLimit\<close>. Its response is the same from any two
  states of the rate-limit table, it leaves the table as it was, and its status is one of
  200, 206, 400, 404, 416 and 500, never the admission-denied status 429.
\<close>

theorem handler_ignores_rate_limit_table:
  "fst (GET e req m1) = fst (GET e req m2)
   \<and> snd (GET e req m1) = m1
   \<and> status (fst (GET e req m1)) \<in> {200, 206, 400, 404, 416, 500}
   \<and> status (fst (GET e req m1)) \<noteq> 429"
  by (simp add: GET_def handle_def Let_def split: option.split outcome.split)

subsection \<open>C9: what the purge guarantees\<close>

text \<open>
  C9, as stated: after a call no remaining entry has a reset time below the current time.
  The call reads the clock twice, for the purge and then for itself. When the clock
  advances between the two readings (100, then 101), an entry of another identifier whose
  reset time is 100 passes the purge and is still in the table when the call returns, at a
  time of 101 or later.
\<close>

theorem stale_entry_survives:
  "snd (checkRateLimit 100 101 ''b'' [''a'' \<mapsto> \<lparr>count = 1, resetTime = 100\<rparr>]) ''a''
     = Some \<lparr>count = 1, resetTime = 100\<rparr>
   \<and> \<not> (\<forall>key v. snd (checkRateLimit 100 101 ''b'' [''a'' \<mapsto> \<lparr>count = 1, resetTime = 100\<rparr>]) key = Some v
                  \<longrightarrow> 101 \<le> resetTime v)"
proof -
  have a: "snd (checkRateLimit 100 101 ''b'' [''a'' \<mapsto> \<lparr>count = 1, resetTime = 100\<rparr>]) ''a''
     = Some \<lparr>count = 1, resetTime = 100\<rparr>"
    by (simp add: checkRateLimit_def cleanupRateLimit_def)
  then show ?thesis by force
qed

text \<open>
  C9, amended: the purge at the start of a call covers every identifier, and after the
  call every remaining entry, of any identifier, has a reset time at least the clock value
  the purge read (the clock not running backwards between the two readings). The entry of
  the identifier that was checked has a reset time at least the call's own reading, and
  when the two readings are equal that holds for every entry.
\<close>

theorem purge_bound:
  assumes "cleanupNow \<le> now"
    and "snd (checkRateLimit cleanupNow now ident m) key = Some v"
  shows "cleanupNow \<le> resetTime v
       \<and> (key = ident \<longrightarrow> now \<le> resetTime v)
       \<and> (cleanupNow = now \<longrightarrow> now \<le> resetTime v)"
proof (cases "key = ident")
  case False
  with assms(2) have "cleanupRateLimit cleanupNow m key = Some v"
    by (simp add: check_table)
  then have "cleanupNow \<le> resetTime v" by (blast dest: cleanup_SomeD)
  with False show ?thesis by simp
next
  case True
  show ?thesis
  proof (cases "cleanupRateLimit cleanupNow m ident")
    case None
    with assms(2) True have "v = \<lparr>count = 1, resetTime = now + 60000\<rparr>"
      by (simp add: check_table)
    with assms(1) show ?thesis by simp
  next
    case (Some cur)
    then have cur: "cleanupNow \<le> resetTime cur" by (blast dest: cleanup_SomeD)
    from assms(2) True Some have
      "v = \<lparr>count = 1, resetTime = now + 60000\<rparr>
       \<or> (\<not> now > resetTime cur \<and> resetTime v = resetTime cur)"
      by (auto simp add: check_table split: if_splits)
    with assms(1) cur show ?thesis by auto
  qed
qed

text \<open>
  C9, amended: a call for \<^verbatim>\<open>b\<close> at time 100 on a table with an entry that expired at 99
  and one that expires at 150.
\<close>

theorem purge_bound_witness:
  "snd (checkRateLimit 100 100 ''b''
         [''a'' \<mapsto> \<lparr>count = 5, resetTime = 99\<rparr>, ''c'' \<mapsto> \<lparr>count = 2, resetTime = 150\<rparr>]) ''a''
     = None
   \<and> snd (checkRateLimit 100 100 ''b''
         [''a'' \<mapsto> \<lparr>count = 5, resetTime = 99\<rparr>, ''c'' \<mapsto> \<lparr>count = 2, resetTime = 150\<rparr>]) ''c''
     = Some \<lparr>count = 2, resetTime = 150\<rparr>
   \<and> 100 \<le> resetTime \<lparr>count = 2, resetTime = 150\<rparr>"
proof -
  let ?m = "[''a'' \<mapsto> \<lparr>count = 5, resetTime = 99\<rparr>, ''c'' \<mapsto> \<lparr>count = 2, resetTime = 150\<rparr>]"
  have a: "snd (checkRateLimit 100 100 ''b'' ?m) ''a'' = None"
    by (simp add: check_table cleanupRateLimit_def)
  have c: "snd (checkRateLimit 100 100 ''b'' ?m) ''c'' = Some \<lparr>count = 2, resetTime = 150\<rparr>"
    by (simp add: check_table cleanupRateLimit_def)
  have "(100::int) \<le> 100" by simp
  from purge_bound [OF this c] a c show ?thesis by simp
qed

subsection \<open>C10: the prefetch hint\<close>

text \<open>
  C10: whenever a response carries \<^verbatim>\<open>X-Next-Range\<close>, the response is partial with bytes
  left after the served end, the header is \<^verbatim>\<open>bytes=<end + 1>-<nextEnd>\<close> with
  \<open>end + 1 \<le> nextEnd \<le> objectSize - 1\<close>, and \<^verbatim>\<open>parseRange\<close> on that header and the same
  object size returns exactly that range.
\<close>

theorem next_range_hint_is_valid:
  assumes "map_of (headers (handle e req)) ''X-Next-Range'' = Some v"
  shows "\<exists>fileName fileMetadata fileSize n nextEnd.
           param_file req = Some fileName
         \<and> getfileMediaInfo e fileName = Returned (Some fileMetadata)
         \<and> ContentLength fileMetadata = Some fileSize
         \<and> negotiate (header_range req) fileSize = Some n
         \<and> isPartialContent n \<and> endp (served n) < fileSize - 1
         \<and> v = ''bytes='' @ toString (endp (served n) + 1) @ ''-'' @ toString nextEnd
         \<and> endp (served n) + 1 \<le> nextEnd \<and> nextEnd \<le> fileSize - 1
         \<and> parseRange v fileSize = Some \<lparr>start = endp (served n) + 1, endp = nextEnd\<rparr>"
proof -
  from assms have "headers (handle e req) \<noteq> []" by auto
  from handle_with_headers [OF this] obtain fileName fileMetadata fileSize n and resp :: GetObjectCommandOutput and bytes where
    f: "param_file req = Some fileName" "getfileMediaInfo e fileName = Returned (Some fileMetadata)"
       "ContentLength fileMetadata = Some fileSize"
    and n: "negotiate (header_range req) fileSize = Some n"
    and h: "headers (handle e req) = buildHeaders e fileName fileSize n (ContentType resp)"
    by auto
  let ?en = "endp (served n)"
  let ?next = "min (?en + 1 + (?en - start (served n) + 1) - 1) (fileSize - 1)"
  from assms h have emitted: "isPartialContent n \<and> ?en < fileSize - 1"
    and v: "v = ''bytes='' @ toString (?en + 1) @ ''-'' @ toString ?next"
    by (simp_all add: buildHeaders_next_range split: if_splits)
  from negotiate_valid [OF n] emitted have valid: "0 \<le> start (served n)" "start (served n) \<le> ?en"
    by simp_all
  have b: "?en + 1 \<le> ?next" "?next \<le> fileSize - 1" using valid emitted by auto
  have "0 \<le> ?en + 1" using valid by simp
  then have "parseRange v fileSize = Some \<lparr>start = ?en + 1, endp = ?next\<rparr>"
    unfolding v using b by (intro parseRange_toString) simp_all
  with f n emitted v b show ?thesis by blast
qed

text \<open>C10 on the first request for the object of 4,194,304 bytes.\<close>

theorem next_range_hint_is_valid_witness:
  "map_of (headers (handle (storage_with 4194304) (request_for None))) ''X-Next-Range''
     = Some ''bytes=1048577-2097153''
   \<and> (\<exists>fileName fileMetadata fileSize n nextEnd.
           param_file (request_for None) = Some fileName
         \<and> getfileMediaInfo (storage_with 4194304) fileName = Returned (Some fileMetadata)
         \<and> ContentLength fileMetadata = Some fileSize
         \<and> negotiate (header_range (request_for None)) fileSize = Some n
         \<and> isPartialContent n \<and> endp (served n) < fileSize - 1
         \<and> ''bytes=1048577-2097153''
             = ''bytes='' @ toString (endp (served n) + 1) @ ''-'' @ toString nextEnd
         \<and> endp (served n) + 1 \<le> nextEnd \<and> nextEnd \<le> fileSize - 1
         \<and> parseRange ''bytes=1048577-2097153'' fileSize
             = Some \<lparr>start = endp (served n) + 1, endp = nextEnd\<rparr>)"
proof -
  have h: "map_of (headers (handle (storage_with 4194304) (request_for None))) ''X-Next-Range''
     = Some ''bytes=1048577-2097153''"
    by (simp add: handle_no_range_4MB)
  from next_range_hint_is_valid [OF h] h show ?thesis by blast
qed

end
